theory Spec2Isabelle
  imports Main "HOL-Library.Word"
begin

unbundle bit_operations_syntax

section \<open>JNI handles (runtime/jniHandles.hpp)\<close>

text \<open>
  A \<open>jobject\<close> is an address-sized value; \<open>NULL\<close> is the address 0. An \<open>oop\<close> is a
  reference to a managed object, again with \<open>NULL\<close> as 0. The handle slots (the
  \<open>oop\<close> cells of handle blocks and of the global and weak global storage) are a
  partial map from addresses to their content: an address outside its domain is not
  a slot, and reading or writing it is an invalid access, which the model reports as
  an error instead of leaving it undefined.

  The model is the debug build: \<open>assert\<close> is checked, and a failed assertion is the
  error \<open>AssertionFailure\<close> with the message of the source.
\<close>

type_synonym uintptr_t = "64 word"
type_synonym jobject = "64 word"
type_synonym oop = "64 word"

abbreviation NULL :: "64 word" where
  "NULL \<equiv> 0"

datatype error = AssertionFailure string | InvalidAccess uintptr_t

text \<open>
  \<open>current_thread_in_native\<close> is declared in the header and defined elsewhere; its
  result depends on the calling thread only, so it is a field of the state the
  resolve functions run in.
\<close>

record jni_state =
  current_thread_in_native :: bool
  slots :: "uintptr_t \<rightharpoonup> oop"

definition load :: "jni_state \<Rightarrow> uintptr_t \<Rightarrow> error + oop" where
  "load s p = (case slots s p of None \<Rightarrow> Inl (InvalidAccess p) | Some v \<Rightarrow> Inr v)"

definition store :: "jni_state \<Rightarrow> uintptr_t \<Rightarrow> oop \<Rightarrow> error + jni_state" where
  "store s p v =
     (case slots s p of
        None \<Rightarrow> Inl (InvalidAccess p)
      | Some _ \<Rightarrow> Inr (s\<lparr>slots := (slots s)(p \<mapsto> v)\<rparr>))"

subsection \<open>The weak tag\<close>

definition weak_tag_size :: nat where
  "weak_tag_size = 1"

text \<open>\<open>(1u << weak_tag_size)\<close>: the shift is done on \<open>unsigned int\<close>, then widened.\<close>

definition weak_tag_alignment :: uintptr_t where
  "weak_tag_alignment = ucast (push_bit weak_tag_size (1 :: 32 word))"

definition weak_tag_mask :: uintptr_t where
  "weak_tag_mask = weak_tag_alignment - 1"

definition weak_tag_value :: int where
  "weak_tag_value = 1"

definition is_jweak :: "jobject \<Rightarrow> bool" where
  "is_jweak handle = ((handle AND weak_tag_mask) \<noteq> 0)"

text \<open>
  \<open>jobject_ref\<close> and \<open>jweak_ref\<close> return a reference \<open>oop&\<close>, that is the address
  of the slot; reading or assigning through the reference is \<open>load\<close> or \<open>store\<close> at
  that address.
\<close>

definition jobject_ref :: "jobject \<Rightarrow> error + uintptr_t" where
  "jobject_ref handle =
     (if \<not> is_jweak handle then Inr handle
      else Inl (AssertionFailure ''precondition''))"

definition jweak_ref_addr :: "jobject \<Rightarrow> error + uintptr_t" where
  "jweak_ref_addr handle =
     (if is_jweak handle then Inr (handle - word_of_int weak_tag_value)
      else Inl (AssertionFailure ''precondition''))"

definition jweak_ref :: "jobject \<Rightarrow> error + uintptr_t" where
  "jweak_ref handle = jweak_ref_addr handle"

subsection \<open>Resolving and destroying\<close>

text \<open>
  Modelled from the spec: \<open>JNIHandles::resolve_jweak\<close> is declared in the header and
  defined in a file that is not part of the sources. The spec says that a weak handle
  is the address of its slot plus one, that the slot is owned by the weak global
  storage, that weak resolution "may itself return null if the referent was cleared by
  the collector", and that a cleared weak handle is one whose slot content is null. So
  weak resolution reads the slot the handle decodes to and returns its content.
\<close>

definition resolve_jweak :: "jni_state \<Rightarrow> jobject \<Rightarrow> error + oop" where
  "resolve_jweak s handle =
     (case jweak_ref_addr handle of
        Inl e \<Rightarrow> Inl e
      | Inr p \<Rightarrow> load s p)"

definition resolve_impl :: "bool \<Rightarrow> jni_state \<Rightarrow> jobject \<Rightarrow> error + oop" where
  "resolve_impl external_guard s handle =
     (if handle = NULL then Inl (AssertionFailure ''precondition'')
      else if current_thread_in_native s then Inl (AssertionFailure ''must not be in native'')
      else if is_jweak handle then resolve_jweak s handle
      else (case jobject_ref handle of
              Inl e \<Rightarrow> Inl e
            | Inr p \<Rightarrow>
                (case load s p of
                   Inl e \<Rightarrow> Inl e
                 | Inr result \<Rightarrow>
                     if external_guard \<or> result \<noteq> NULL then Inr result
                     else Inl (AssertionFailure ''Invalid JNI handle''))))"

definition resolve :: "jni_state \<Rightarrow> jobject \<Rightarrow> error + oop" where
  "resolve s handle =
     (if handle \<noteq> NULL then resolve_impl False s handle else Inr NULL)"

definition resolve_external_guard :: "jni_state \<Rightarrow> jobject \<Rightarrow> error + oop" where
  "resolve_external_guard s handle =
     (if handle \<noteq> NULL then resolve_impl True s handle else Inr NULL)"

definition resolve_non_null :: "jni_state \<Rightarrow> jobject \<Rightarrow> error + oop" where
  "resolve_non_null s handle =
     (if handle = NULL then Inl (AssertionFailure ''JNI handle should not be null'')
      else (case resolve_impl False s handle of
              Inl e \<Rightarrow> Inl e
            | Inr result \<Rightarrow>
                if result \<noteq> NULL then Inr result
                else Inl (AssertionFailure ''NULL read from jni handle'')))"

definition destroy_local :: "jni_state \<Rightarrow> jobject \<Rightarrow> error + jni_state" where
  "destroy_local s handle =
     (if handle \<noteq> NULL then
        (if is_jweak handle then Inl (AssertionFailure ''Invalid JNI local handle'')
         else (case jobject_ref handle of
                 Inl e \<Rightarrow> Inl e
               | Inr p \<Rightarrow> store s p NULL))
      else Inr s)"

text \<open>
  A failed assertion is what the spec calls a contract violation; an invalid access is
  a fault of another kind.
\<close>

fun contract_violation :: "error + 'a \<Rightarrow> bool" where
  "contract_violation (Inl (AssertionFailure _)) = True"
| "contract_violation _ = False"

section \<open>Root iterators (gc/z/zRootsIterator.cpp)\<close>

text \<open>
  An \<open>OopClosure*\<close> is opaque to the iterators, which only pass it on: it is a value
  of a type parameter \<open>'c\<close>. A \<open>BoolObjectClosure\<close> is its \<open>do_object_b\<close>, a
  predicate on object references; \<open>AlwaysTrueClosure\<close> answers true for every object.

  The collaborators (\<open>Universe\<close>, \<open>JNIHandles\<close>, \<open>SymbolTable\<close>, ...) are outside the
  sources. A call into one of them is recorded, with its arguments, in the \<open>calls\<close> log
  of the iterator; the statistics timers (\<open>ZStatTimer\<close>) and \<open>ResourceMark\<close> are
  left out.
\<close>

type_synonym BoolObjectClosure = "oop \<Rightarrow> bool"

definition AlwaysTrueClosure :: BoolObjectClosure where
  "AlwaysTrueClosure = (\<lambda>obj. True)"

datatype 'c call =
    Universe_oops_do 'c
  | JNIHandles_oops_do 'c
  | JNIHandles_weak_oops_do 'c
  | JNIHandles_weak_oops_do_is_alive BoolObjectClosure 'c
  | ObjectSynchronizer_oops_do 'c
  | Management_oops_do 'c
  | JvmtiExport_oops_do 'c
  | JvmtiExport_weak_oops_do BoolObjectClosure 'c
  | TRACE_WEAK_OOPS_DO BoolObjectClosure 'c
  | SystemDictionary_oops_do 'c
  | ClassLoaderDataGraph_cld_do_CLDToOopClosure 'c
  | Threads_possibly_parallel_oops_do bool 'c
  | ZNMethodTable_oops_do 'c
  | StringTable_possibly_parallel_oops_do 'c
  | SymbolTable_possibly_parallel_unlink
  | StringTable_possibly_parallel_unlink_or_oops_do BoolObjectClosure 'c

text \<open>The guard members of the iterators, named as their statistics phases are.\<close>

datatype group =
    Universe | JNIHandles | JNIWeakHandles | ObjectSynchronizer | Management
  | JVMTIExport | JVMTIWeakExport | Trace | SystemDictionary | ClassLoaderDataGraph
  | Threads | CodeCache | StringTable | SymbolTable

text \<open>
  The header that declares the iterator classes is not part of the sources, so which
  of the guard templates each member instantiates (serial or parallel) is a parameter:
  the field \<open>kind\<close>. The field \<open>flag\<close> holds the \<open>_claimed\<close> flag of a serial guard
  and the \<open>_completed\<close> flag of a parallel one. Besides the collaborator calls, the
  iterator logs every call of a guard's entry point, with the arguments it was given,
  in \<open>guard_calls\<close>.
\<close>

datatype guard_kind = Serial | Parallel

record 'c roots_iterator =
  kind :: "group \<Rightarrow> guard_kind"
  flag :: "group \<Rightarrow> bool"
  guard_calls :: "(group \<times> BoolObjectClosure option \<times> 'c) list"
  calls :: "'c call list"

record flags =
  ZWeakRoots :: bool
  ZConcurrentJNIWeakGlobalHandles :: bool

subsection \<open>The guard templates, one call run to its end\<close>

text \<open>
  \<open>Atomic::cmpxchg(exchange_value, dest, compare_value)\<close> returns the old content of
  \<open>dest\<close> and stores \<open>exchange_value\<close> there when the old content is
  \<open>compare_value\<close>: the result is the pair of the returned value and the new content.
\<close>

definition Atomic_cmpxchg :: "bool \<Rightarrow> bool \<Rightarrow> bool \<Rightarrow> bool \<times> bool" where
  "Atomic_cmpxchg exchange_value dest compare_value =
     (dest, if dest = compare_value then exchange_value else dest)"

definition ZSerialOopsDo_oops_do ::
  "group \<Rightarrow> ('c \<Rightarrow> 'c roots_iterator \<Rightarrow> 'c roots_iterator) \<Rightarrow> 'c \<Rightarrow>
   'c roots_iterator \<Rightarrow> 'c roots_iterator" where
  "ZSerialOopsDo_oops_do g F cl it =
     (if \<not> flag it g then
        (case Atomic_cmpxchg True (flag it g) False of
           (old, new) \<Rightarrow>
             (let it' = it\<lparr>flag := (flag it)(g := new)\<rparr>
              in if old = False then F cl it' else it'))
      else it)"

definition ZParallelOopsDo_oops_do ::
  "group \<Rightarrow> ('c \<Rightarrow> 'c roots_iterator \<Rightarrow> 'c roots_iterator) \<Rightarrow> 'c \<Rightarrow>
   'c roots_iterator \<Rightarrow> 'c roots_iterator" where
  "ZParallelOopsDo_oops_do g F cl it =
     (if \<not> flag it g then
        (let it' = F cl it
         in if \<not> flag it' g then it'\<lparr>flag := (flag it')(g := True)\<rparr> else it')
      else it)"

definition ZSerialUnlinkOrOopsDo_unlink_or_oops_do ::
  "group \<Rightarrow> (BoolObjectClosure \<Rightarrow> 'c \<Rightarrow> 'c roots_iterator \<Rightarrow> 'c roots_iterator) \<Rightarrow>
   BoolObjectClosure \<Rightarrow> 'c \<Rightarrow> 'c roots_iterator \<Rightarrow> 'c roots_iterator" where
  "ZSerialUnlinkOrOopsDo_unlink_or_oops_do g F is_alive cl it =
     (if \<not> flag it g then
        (case Atomic_cmpxchg True (flag it g) False of
           (old, new) \<Rightarrow>
             (let it' = it\<lparr>flag := (flag it)(g := new)\<rparr>
              in if old = False then F is_alive cl it' else it'))
      else it)"

definition ZParallelUnlinkOrOopsDo_unlink_or_oops_do ::
  "group \<Rightarrow> (BoolObjectClosure \<Rightarrow> 'c \<Rightarrow> 'c roots_iterator \<Rightarrow> 'c roots_iterator) \<Rightarrow>
   BoolObjectClosure \<Rightarrow> 'c \<Rightarrow> 'c roots_iterator \<Rightarrow> 'c roots_iterator" where
  "ZParallelUnlinkOrOopsDo_unlink_or_oops_do g F is_alive cl it =
     (if \<not> flag it g then
        (let it' = F is_alive cl it
         in if \<not> flag it' g then it'\<lparr>flag := (flag it')(g := True)\<rparr> else it')
      else it)"

text \<open>
  A call of a member's entry point, \<open>_universe.oops_do(cl)\<close> and the like: it is
  logged, and the template the member instantiates runs.
\<close>

definition member_oops_do ::
  "group \<Rightarrow> ('c \<Rightarrow> 'c roots_iterator \<Rightarrow> 'c roots_iterator) \<Rightarrow> 'c \<Rightarrow>
   'c roots_iterator \<Rightarrow> 'c roots_iterator" where
  "member_oops_do g F cl it =
     (let it' = it\<lparr>guard_calls := guard_calls it @ [(g, None, cl)]\<rparr>
      in case kind it g of
           Serial \<Rightarrow> ZSerialOopsDo_oops_do g F cl it'
         | Parallel \<Rightarrow> ZParallelOopsDo_oops_do g F cl it')"

definition member_unlink_or_oops_do ::
  "group \<Rightarrow> (BoolObjectClosure \<Rightarrow> 'c \<Rightarrow> 'c roots_iterator \<Rightarrow> 'c roots_iterator) \<Rightarrow>
   BoolObjectClosure \<Rightarrow> 'c \<Rightarrow> 'c roots_iterator \<Rightarrow> 'c roots_iterator" where
  "member_unlink_or_oops_do g F is_alive cl it =
     (let it' = it\<lparr>guard_calls := guard_calls it @ [(g, Some is_alive, cl)]\<rparr>
      in case kind it g of
           Serial \<Rightarrow> ZSerialUnlinkOrOopsDo_unlink_or_oops_do g F is_alive cl it'
         | Parallel \<Rightarrow> ZParallelUnlinkOrOopsDo_unlink_or_oops_do g F is_alive cl it')"

subsection \<open>The strong root iterator\<close>

definition invoke :: "'c call \<Rightarrow> 'c roots_iterator \<Rightarrow> 'c roots_iterator" where
  "invoke c it = it\<lparr>calls := calls it @ [c]\<rparr>"

definition ZRootsIterator_do_universe :: "'c \<Rightarrow> 'c roots_iterator \<Rightarrow> 'c roots_iterator" where
  "ZRootsIterator_do_universe cl = invoke (Universe_oops_do cl)"

definition ZRootsIterator_do_jni_handles :: "'c \<Rightarrow> 'c roots_iterator \<Rightarrow> 'c roots_iterator" where
  "ZRootsIterator_do_jni_handles cl = invoke (JNIHandles_oops_do cl)"

definition ZRootsIterator_do_jni_weak_handles :: "'c \<Rightarrow> 'c roots_iterator \<Rightarrow> 'c roots_iterator" where
  "ZRootsIterator_do_jni_weak_handles cl = invoke (JNIHandles_weak_oops_do cl)"

definition ZRootsIterator_do_object_synchronizer :: "'c \<Rightarrow> 'c roots_iterator \<Rightarrow> 'c roots_iterator" where
  "ZRootsIterator_do_object_synchronizer cl = invoke (ObjectSynchronizer_oops_do cl)"

definition ZRootsIterator_do_management :: "'c \<Rightarrow> 'c roots_iterator \<Rightarrow> 'c roots_iterator" where
  "ZRootsIterator_do_management cl = invoke (Management_oops_do cl)"

definition ZRootsIterator_do_jvmti_export :: "'c \<Rightarrow> 'c roots_iterator \<Rightarrow> 'c roots_iterator" where
  "ZRootsIterator_do_jvmti_export cl = invoke (JvmtiExport_oops_do cl)"

definition ZRootsIterator_do_jvmti_weak_export :: "'c \<Rightarrow> 'c roots_iterator \<Rightarrow> 'c roots_iterator" where
  "ZRootsIterator_do_jvmti_weak_export cl =
     (let always_alive = AlwaysTrueClosure
      in invoke (JvmtiExport_weak_oops_do always_alive cl))"

definition ZRootsIterator_do_trace :: "'c \<Rightarrow> 'c roots_iterator \<Rightarrow> 'c roots_iterator" where
  "ZRootsIterator_do_trace cl =
     (let always_alive = AlwaysTrueClosure
      in invoke (TRACE_WEAK_OOPS_DO always_alive cl))"

definition ZRootsIterator_do_system_dictionary :: "'c \<Rightarrow> 'c roots_iterator \<Rightarrow> 'c roots_iterator" where
  "ZRootsIterator_do_system_dictionary cl = invoke (SystemDictionary_oops_do cl)"

text \<open>\<open>CLDToOopClosure cld_cl(cl)\<close> wraps the visitor; the call is logged with \<open>cl\<close>.\<close>

definition ZRootsIterator_do_class_loader_data_graph :: "'c \<Rightarrow> 'c roots_iterator \<Rightarrow> 'c roots_iterator" where
  "ZRootsIterator_do_class_loader_data_graph cl =
     invoke (ClassLoaderDataGraph_cld_do_CLDToOopClosure cl)"

text \<open>\<open>Threads::possibly_parallel_oops_do(true, cl, NULL)\<close>.\<close>

definition ZRootsIterator_do_threads :: "'c \<Rightarrow> 'c roots_iterator \<Rightarrow> 'c roots_iterator" where
  "ZRootsIterator_do_threads cl = invoke (Threads_possibly_parallel_oops_do True cl)"

definition ZRootsIterator_do_code_cache :: "'c \<Rightarrow> 'c roots_iterator \<Rightarrow> 'c roots_iterator" where
  "ZRootsIterator_do_code_cache cl = invoke (ZNMethodTable_oops_do cl)"

definition ZRootsIterator_do_string_table :: "'c \<Rightarrow> 'c roots_iterator \<Rightarrow> 'c roots_iterator" where
  "ZRootsIterator_do_string_table cl = invoke (StringTable_possibly_parallel_oops_do cl)"

definition ZRootsIterator_oops_do ::
  "flags \<Rightarrow> 'c \<Rightarrow> bool \<Rightarrow> 'c roots_iterator \<Rightarrow> 'c roots_iterator" where
  "ZRootsIterator_oops_do fl cl visit_jvmti_weak_export it =
     (let it1 = member_oops_do Universe ZRootsIterator_do_universe cl it;
          it2 = member_oops_do JNIHandles ZRootsIterator_do_jni_handles cl it1;
          it3 = member_oops_do ObjectSynchronizer ZRootsIterator_do_object_synchronizer cl it2;
          it4 = member_oops_do Management ZRootsIterator_do_management cl it3;
          it5 = member_oops_do JVMTIExport ZRootsIterator_do_jvmti_export cl it4;
          it6 = member_oops_do SystemDictionary ZRootsIterator_do_system_dictionary cl it5;
          it7 = member_oops_do ClassLoaderDataGraph ZRootsIterator_do_class_loader_data_graph cl it6;
          it8 = member_oops_do Threads ZRootsIterator_do_threads cl it7;
          it9 = member_oops_do CodeCache ZRootsIterator_do_code_cache cl it8
      in if \<not> ZWeakRoots fl then
           (let it10 = member_oops_do JNIWeakHandles ZRootsIterator_do_jni_weak_handles cl it9;
                it11 = member_oops_do JVMTIWeakExport ZRootsIterator_do_jvmti_weak_export cl it10;
                it12 = member_oops_do Trace ZRootsIterator_do_trace cl it11
            in member_oops_do StringTable ZRootsIterator_do_string_table cl it12)
         else if visit_jvmti_weak_export then
           member_oops_do JVMTIWeakExport ZRootsIterator_do_jvmti_weak_export cl it9
         else it9)"

subsection \<open>The weak root iterator\<close>

definition ZWeakRootsIterator_do_jni_weak_handles ::
  "BoolObjectClosure \<Rightarrow> 'c \<Rightarrow> 'c roots_iterator \<Rightarrow> 'c roots_iterator" where
  "ZWeakRootsIterator_do_jni_weak_handles is_alive cl =
     invoke (JNIHandles_weak_oops_do_is_alive is_alive cl)"

definition ZWeakRootsIterator_do_jvmti_weak_export ::
  "BoolObjectClosure \<Rightarrow> 'c \<Rightarrow> 'c roots_iterator \<Rightarrow> 'c roots_iterator" where
  "ZWeakRootsIterator_do_jvmti_weak_export is_alive cl =
     invoke (JvmtiExport_weak_oops_do is_alive cl)"

definition ZWeakRootsIterator_do_trace ::
  "BoolObjectClosure \<Rightarrow> 'c \<Rightarrow> 'c roots_iterator \<Rightarrow> 'c roots_iterator" where
  "ZWeakRootsIterator_do_trace is_alive cl = invoke (TRACE_WEAK_OOPS_DO is_alive cl)"

text \<open>\<open>SymbolTable::possibly_parallel_unlink(&dummy, &dummy)\<close>: two counters, no closure.\<close>

definition ZWeakRootsIterator_do_symbol_table ::
  "BoolObjectClosure \<Rightarrow> 'c \<Rightarrow> 'c roots_iterator \<Rightarrow> 'c roots_iterator" where
  "ZWeakRootsIterator_do_symbol_table is_alive cl = invoke SymbolTable_possibly_parallel_unlink"

definition ZWeakRootsIterator_do_string_table ::
  "BoolObjectClosure \<Rightarrow> 'c \<Rightarrow> 'c roots_iterator \<Rightarrow> 'c roots_iterator" where
  "ZWeakRootsIterator_do_string_table is_alive cl =
     invoke (StringTable_possibly_parallel_unlink_or_oops_do is_alive cl)"

definition ZWeakRootsIterator_unlink_or_oops_do ::
  "flags \<Rightarrow> BoolObjectClosure \<Rightarrow> 'c \<Rightarrow> 'c roots_iterator \<Rightarrow> 'c roots_iterator" where
  "ZWeakRootsIterator_unlink_or_oops_do fl is_alive cl it =
     (let it1 = member_unlink_or_oops_do SymbolTable ZWeakRootsIterator_do_symbol_table is_alive cl it
      in if ZWeakRoots fl then
           (let it2 = (if \<not> ZConcurrentJNIWeakGlobalHandles fl
                       then member_unlink_or_oops_do JNIWeakHandles
                              ZWeakRootsIterator_do_jni_weak_handles is_alive cl it1
                       else it1);
                it3 = member_unlink_or_oops_do JVMTIWeakExport
                        ZWeakRootsIterator_do_jvmti_weak_export is_alive cl it2;
                it4 = member_unlink_or_oops_do Trace ZWeakRootsIterator_do_trace is_alive cl it3
            in member_unlink_or_oops_do StringTable ZWeakRootsIterator_do_string_table is_alive cl it4)
         else it1)"

definition ZWeakRootsIterator_oops_do ::
  "flags \<Rightarrow> 'c \<Rightarrow> 'c roots_iterator \<Rightarrow> 'c roots_iterator" where
  "ZWeakRootsIterator_oops_do fl cl it =
     (let always_alive = AlwaysTrueClosure
      in ZWeakRootsIterator_unlink_or_oops_do fl always_alive cl it)"

text \<open>
  The constructors initialise every guard member with its flag cleared. Their calls
  that prepare the collaborators for the pass are not guards and are not logged.
\<close>

definition new_iterator :: "(group \<Rightarrow> guard_kind) \<Rightarrow> 'c roots_iterator" where
  "new_iterator k = \<lparr>kind = k, flag = (\<lambda>g. False), guard_calls = [], calls = []\<rparr>"

text \<open>
  The visit-only mode in the words of the spec: the unlink-or-visit pass run with a
  liveness predicate that holds of every object, so that every entry is treated as
  live.
\<close>

definition visit_only :: "flags \<Rightarrow> 'c \<Rightarrow> 'c roots_iterator \<Rightarrow> 'c roots_iterator" where
  "visit_only fl cl it = ZWeakRootsIterator_unlink_or_oops_do fl (\<lambda>obj. True) cl it"

text \<open>What a guard lets through: the call \<open>c\<close> unless the flag of \<open>g\<close> is set.\<close>

definition unless_flag :: "'c roots_iterator \<Rightarrow> group \<Rightarrow> 'c call \<Rightarrow> 'c call list" where
  "unless_flag it g c = (if flag it g then [] else [c])"

text \<open>The liveness predicate a collaborator call is given, if it takes one.\<close>

fun liveness_argument :: "'c call \<Rightarrow> BoolObjectClosure option" where
  "liveness_argument (JNIHandles_weak_oops_do_is_alive p cl) = Some p"
| "liveness_argument (JvmtiExport_weak_oops_do p cl) = Some p"
| "liveness_argument (TRACE_WEAK_OOPS_DO p cl) = Some p"
| "liveness_argument (StringTable_possibly_parallel_unlink_or_oops_do p cl) = Some p"
| "liveness_argument _ = None"

subsection \<open>A serial guard under concurrent calls\<close>

text \<open>
  Several calls of the entry point of one serial guard run at the same time. The body
  of \<open>ZSerialOopsDo::oops_do\<close> and of \<open>ZSerialUnlinkOrOopsDo::unlink_or_oops_do\<close> is
  \<^verbatim>\<open>if (!_claimed && Atomic::cmpxchg(true, &_claimed, false) == false) { (_iter->*F)(...); }\<close>
  so a call is at one of four points: before it reads \<open>_claimed\<close>, before its
  compare-and-swap, before its call of \<open>F\<close>, or returned. A step is one of these
  actions of one call, taken atomically; a schedule is the list of the calls that step,
  in order, and any interleaving of the calls is some schedule. The arguments of a call
  (\<open>cl\<close>, or \<open>is_alive\<close> and \<open>cl\<close>) are a value of type \<open>'a\<close>; \<open>executed\<close> lists the
  calls that have run \<open>F\<close>, with their arguments.
\<close>

datatype pc = AtTest | AtCmpxchg | AtCall | Returned

record 'a serial_guard =
  claimed :: bool
  running :: "(pc \<times> 'a) list"
  executed :: "(nat \<times> 'a) list"

definition set_pc :: "nat \<Rightarrow> pc \<Rightarrow> 'a serial_guard \<Rightarrow> 'a serial_guard" where
  "set_pc i p s = s\<lparr>running := (running s)[i := (p, snd (running s ! i))]\<rparr>"

definition ZSerial_step :: "nat \<Rightarrow> 'a serial_guard \<Rightarrow> 'a serial_guard" where
  "ZSerial_step i s =
     (if i < length (running s) then
        (case fst (running s ! i) of
           AtTest \<Rightarrow> if \<not> claimed s then set_pc i AtCmpxchg s else set_pc i Returned s
         | AtCmpxchg \<Rightarrow>
             (case Atomic_cmpxchg True (claimed s) False of
                (old, new) \<Rightarrow>
                  if old = False then set_pc i AtCall (s\<lparr>claimed := new\<rparr>)
                  else set_pc i Returned (s\<lparr>claimed := new\<rparr>))
         | AtCall \<Rightarrow>
             set_pc i Returned (s\<lparr>executed := executed s @ [(i, snd (running s ! i))]\<rparr>)
         | Returned \<Rightarrow> s)
      else s)"

text \<open>The constructor clears \<open>_claimed\<close>; then the calls start.\<close>

definition ZSerial_start :: "'a list \<Rightarrow> 'a serial_guard" where
  "ZSerial_start args = \<lparr>claimed = False, running = map (Pair AtTest) args, executed = []\<rparr>"

definition ZSerial_run :: "'a list \<Rightarrow> nat list \<Rightarrow> 'a serial_guard" where
  "ZSerial_run args schedule = fold ZSerial_step schedule (ZSerial_start args)"

definition all_returned :: "'a serial_guard \<Rightarrow> bool" where
  "all_returned s = list_all (\<lambda>r. fst r = Returned) (running s)"

text \<open>
  The invariant of the runs: while the flag is clear no call is past its
  compare-and-swap; once it is set there is one call, the winner, that is about to run
  \<open>F\<close> or has run it, and no other call ever reaches \<open>F\<close>.
\<close>

definition winner :: "'a serial_guard \<Rightarrow> nat \<Rightarrow> bool" where
  "winner s w =
     (w < length (running s) \<and>
      (\<forall>j < length (running s). j = w \<or> fst (running s ! j) \<noteq> AtCall) \<and>
      (if fst (running s ! w) = AtCall then executed s = []
       else fst (running s ! w) = Returned \<and> executed s = [(w, snd (running s ! w))]))"

definition serial_inv :: "'a serial_guard \<Rightarrow> bool" where
  "serial_inv s =
     (if claimed s then (\<exists>w. winner s w)
      else executed s = [] \<and>
           (\<forall>j < length (running s).
              fst (running s ! j) = AtTest \<or> fst (running s ! j) = AtCmpxchg))"

fun rank :: "pc \<Rightarrow> nat" where
  "rank AtTest = 0"
| "rank AtCmpxchg = 1"
| "rank AtCall = 2"
| "rank Returned = 3"

section \<open>Decoding, resolving and destroying handles\<close>

lemma weak_tag_alignment_eq: "weak_tag_alignment = 2"
  by (simp add: weak_tag_alignment_def weak_tag_size_def)

lemma weak_tag_mask_eq: "weak_tag_mask = 1"
  by (simp add: weak_tag_mask_def weak_tag_alignment_eq)

lemma is_jweak_odd: "is_jweak a \<longleftrightarrow> odd a"
  by (simp add: is_jweak_def weak_tag_mask_eq and_one_eq mod_2_eq_odd)

lemma jweak_ref_addr_weak: "is_jweak a \<Longrightarrow> jweak_ref_addr a = Inr (a - 1)"
  by (simp add: jweak_ref_addr_def weak_tag_value_def)

lemma jobject_ref_strong: "\<not> is_jweak a \<Longrightarrow> jobject_ref a = Inr a"
  by (simp add: jobject_ref_def)

lemma is_jweak_bit0: "is_jweak a \<longleftrightarrow> bit a 0"
  by (simp add: is_jweak_odd bit_0)

lemma is_jweak_and_1: "is_jweak a \<longleftrightarrow> (a AND 1) \<noteq> 0"
  by (simp add: is_jweak_def weak_tag_mask_eq)

lemma not_is_jweak_decoded: "is_jweak a \<Longrightarrow> \<not> is_jweak (a - 1)"
  by (simp add: is_jweak_odd)

text \<open>
  Claim C5. The tag is the lowest bit of the address: the mask is 1, and a handle is
  weak exactly when its address and the mask have a bit in common, that is when bit
  0 is set. The slot of a strong handle is at the address of the handle; the slot of
  a weak handle is at the address minus the tag value 1, which clears the tag and is
  undone by adding 1. Decoding takes the address only, no state.
\<close>

theorem weak_tag_encoding:
  "weak_tag_mask = 1 \<and>
   (is_jweak a \<longleftrightarrow> (a AND 1) \<noteq> 0) \<and>
   (is_jweak a \<longleftrightarrow> bit a 0) \<and>
   (\<not> is_jweak a \<longrightarrow> jobject_ref a = Inr a) \<and>
   (is_jweak a \<longrightarrow> jweak_ref_addr a = Inr (a - 1) \<and> \<not> is_jweak (a - 1) \<and> (a - 1) + 1 = a)"
  using weak_tag_mask_eq is_jweak_bit0 [of a] is_jweak_and_1 [of a]
    jobject_ref_strong [of a] jweak_ref_addr_weak [of a] not_is_jweak_decoded [of a]
  by simp

theorem weak_tag_encoding_witness:
  "is_jweak 4097 \<and> jweak_ref_addr 4097 = Inr 4096 \<and> \<not> is_jweak 4096 \<and> jobject_ref 4096 = Inr 4096"
  using weak_tag_encoding [of 4097] weak_tag_encoding [of 4096]
  by simp

lemma resolve_external_guard_null_cases:
  assumes "handle = NULL \<or> \<not> current_thread_in_native s"
    and "handle = NULL \<or>
         (\<not> is_jweak handle \<and> slots s handle = Some NULL) \<or>
         (is_jweak handle \<and> slots s (handle - 1) = Some NULL)"
  shows "resolve_external_guard s handle = Inr NULL"
proof (cases "handle = NULL")
  case True
  then show ?thesis by (simp add: resolve_external_guard_def)
next
  case False
  with assms(1) have n: "\<not> current_thread_in_native s" by simp
  show ?thesis
  proof (cases "is_jweak handle")
    case True
    with assms(2) False have "slots s (handle - 1) = Some NULL" by simp
    then show ?thesis using False n True
      by (simp add: resolve_external_guard_def resolve_impl_def resolve_jweak_def
          jweak_ref_addr_weak load_def)
  next
    case w: False
    with assms(2) False have "slots s handle = Some NULL" by simp
    then show ?thesis using False n w
      by (simp add: resolve_external_guard_def resolve_impl_def jobject_ref_strong load_def)
  qed
qed

lemma resolve_external_guard_in_native:
  assumes "handle \<noteq> NULL" and "current_thread_in_native s"
  shows "resolve_external_guard s handle = Inl (AssertionFailure ''must not be in native'')"
  using assms by (simp add: resolve_external_guard_def resolve_impl_def)

text \<open>
  Claim C3, as amended. When the handle is null, or the calling thread is not in
  native state and the handle is a strong handle whose slot holds null or a weak
  handle whose slot was cleared, \<open>resolve_external_guard\<close> returns null and fails
  no assertion. The condition on the thread is needed for a handle that is not null:
  for every such handle, strong or weak, whatever its slot holds,
  \<open>resolve_external_guard\<close> asserts first that the calling thread is not in native
  state, and in native state it fails that assertion.
\<close>

theorem resolve_external_guard_null:
  "((handle = NULL \<or> \<not> current_thread_in_native s) \<and>
    (handle = NULL \<or>
     (\<not> is_jweak handle \<and> slots s handle = Some NULL) \<or>
     (is_jweak handle \<and> slots s (handle - 1) = Some NULL))
      \<longrightarrow> resolve_external_guard s handle = Inr NULL) \<and>
   (handle \<noteq> NULL \<and> current_thread_in_native s
      \<longrightarrow> resolve_external_guard s handle = Inl (AssertionFailure ''must not be in native''))"
proof (intro conjI impI)
  assume "(handle = NULL \<or> \<not> current_thread_in_native s) \<and>
    (handle = NULL \<or>
     (\<not> is_jweak handle \<and> slots s handle = Some NULL) \<or>
     (is_jweak handle \<and> slots s (handle - 1) = Some NULL))"
  then show "resolve_external_guard s handle = Inr NULL"
    by (intro resolve_external_guard_null_cases) simp_all
next
  assume "handle \<noteq> NULL \<and> current_thread_in_native s"
  then show "resolve_external_guard s handle = Inl (AssertionFailure ''must not be in native'')"
    by (intro resolve_external_guard_in_native) simp_all
qed

theorem resolve_external_guard_null_witness:
  "resolve_external_guard \<lparr>current_thread_in_native = False, slots = [8 \<mapsto> NULL, 16 \<mapsto> NULL]\<rparr> 8 = Inr NULL \<and>
   resolve_external_guard \<lparr>current_thread_in_native = False, slots = [8 \<mapsto> NULL, 16 \<mapsto> NULL]\<rparr> 17 = Inr NULL \<and>
   resolve_external_guard \<lparr>current_thread_in_native = True, slots = Map.empty\<rparr> NULL = Inr NULL \<and>
   resolve_external_guard \<lparr>current_thread_in_native = True, slots = [8 \<mapsto> NULL, 16 \<mapsto> 7]\<rparr> 17
     = Inl (AssertionFailure ''must not be in native'')"
proof -
  have a: "\<not> is_jweak 8" "is_jweak 17"
    by (simp_all add: is_jweak_odd)
  show ?thesis
    using a
      resolve_external_guard_null [of 8 "\<lparr>current_thread_in_native = False, slots = [8 \<mapsto> NULL, 16 \<mapsto> NULL]\<rparr>"]
      resolve_external_guard_null [of 17 "\<lparr>current_thread_in_native = False, slots = [8 \<mapsto> NULL, 16 \<mapsto> NULL]\<rparr>"]
      resolve_external_guard_null [of NULL "\<lparr>current_thread_in_native = True, slots = Map.empty\<rparr>"]
      resolve_external_guard_null [of 17 "\<lparr>current_thread_in_native = True, slots = [8 \<mapsto> NULL, 16 \<mapsto> 7]\<rparr>"]
    by simp
qed

text \<open>
  The claim as stated, for every handle and without the condition on the thread, fails:
  with the calling thread in native state, a strong handle whose slot holds null
  fails the assertion "must not be in native".
\<close>

theorem resolve_external_guard_in_native_counterexample:
  "\<not> is_jweak 8 \<and>
   slots \<lparr>current_thread_in_native = True, slots = [8 \<mapsto> NULL]\<rparr> 8 = Some NULL \<and>
   resolve_external_guard \<lparr>current_thread_in_native = True, slots = [8 \<mapsto> NULL]\<rparr> 8
     = Inl (AssertionFailure ''must not be in native'')"
  by (simp add: is_jweak_odd resolve_external_guard_def resolve_impl_def)

text \<open>
  Claim C4, as amended. \<open>resolve\<close> returns null for the null handle. For any other
  handle it first asserts that the calling thread is not in native state; then a
  handle with the weak tag is resolved by \<open>resolve_jweak\<close>, and a strong handle
  gives the content of its slot, with the assertion "Invalid JNI handle" that this
  content is not null.
\<close>

theorem resolve_cases:
  "resolve s handle =
     (if handle = NULL then Inr NULL
      else if current_thread_in_native s then Inl (AssertionFailure ''must not be in native'')
      else if is_jweak handle then resolve_jweak s handle
      else (case slots s handle of
              None \<Rightarrow> Inl (InvalidAccess handle)
            | Some result \<Rightarrow>
                if result \<noteq> NULL then Inr result
                else Inl (AssertionFailure ''Invalid JNI handle'')))"
  by (simp add: resolve_def resolve_impl_def jobject_ref_def load_def split: option.splits)

theorem resolve_cases_witness:
  "resolve \<lparr>current_thread_in_native = False, slots = [8 \<mapsto> 42, 16 \<mapsto> 7, 24 \<mapsto> NULL]\<rparr> 8 = Inr 42 \<and>
   resolve \<lparr>current_thread_in_native = False, slots = [8 \<mapsto> 42, 16 \<mapsto> 7, 24 \<mapsto> NULL]\<rparr> 17 = Inr 7 \<and>
   resolve \<lparr>current_thread_in_native = False, slots = [8 \<mapsto> 42, 16 \<mapsto> 7, 24 \<mapsto> NULL]\<rparr> 24
     = Inl (AssertionFailure ''Invalid JNI handle'') \<and>
   resolve \<lparr>current_thread_in_native = False, slots = [8 \<mapsto> 42, 16 \<mapsto> 7, 24 \<mapsto> NULL]\<rparr> NULL = Inr NULL"
  using resolve_cases [of "\<lparr>current_thread_in_native = False, slots = [8 \<mapsto> 42, 16 \<mapsto> 7, 24 \<mapsto> NULL]\<rparr>" 8]
    resolve_cases [of "\<lparr>current_thread_in_native = False, slots = [8 \<mapsto> 42, 16 \<mapsto> 7, 24 \<mapsto> NULL]\<rparr>" 17]
    resolve_cases [of "\<lparr>current_thread_in_native = False, slots = [8 \<mapsto> 42, 16 \<mapsto> 7, 24 \<mapsto> NULL]\<rparr>" 24]
    resolve_cases [of "\<lparr>current_thread_in_native = False, slots = [8 \<mapsto> 42, 16 \<mapsto> 7, 24 \<mapsto> NULL]\<rparr>" NULL]
  by (simp add: is_jweak_odd resolve_jweak_def jweak_ref_addr_weak load_def)

text \<open>
  The claim as stated fails where the calling thread is in native state: for a strong
  handle whose slot holds an object, \<open>resolve\<close> does not return the content of
  the slot, it fails the assertion on the thread state.
\<close>

theorem resolve_in_native_counterexample:
  "8 \<noteq> NULL \<and> \<not> is_jweak 8 \<and>
   slots \<lparr>current_thread_in_native = True, slots = [8 \<mapsto> 42]\<rparr> 8 = Some 42 \<and>
   resolve \<lparr>current_thread_in_native = True, slots = [8 \<mapsto> 42]\<rparr> 8
     = Inl (AssertionFailure ''must not be in native'')"
  by (simp add: is_jweak_odd resolve_def resolve_impl_def)

text \<open>
  Claim C9, as amended. For a local handle (not null, without the weak tag, its slot
  allocated), \<open>destroy_local\<close> stores null in the slot and returns; a second
  \<open>destroy_local\<close> of the same handle stores null again and returns as well, with
  the state unchanged. Resolving the destroyed handle with \<open>resolve\<close> or
  \<open>resolve_non_null\<close> fails an assertion.
\<close>

theorem destroy_local_twice_then_resolve:
  assumes "handle \<noteq> NULL" and "\<not> is_jweak handle" and "slots s handle = Some obj"
  shows "destroy_local s handle = Inr (s\<lparr>slots := (slots s)(handle \<mapsto> NULL)\<rparr>) \<and>
         destroy_local (s\<lparr>slots := (slots s)(handle \<mapsto> NULL)\<rparr>) handle
           = Inr (s\<lparr>slots := (slots s)(handle \<mapsto> NULL)\<rparr>) \<and>
         contract_violation (resolve (s\<lparr>slots := (slots s)(handle \<mapsto> NULL)\<rparr>) handle) \<and>
         contract_violation (resolve_non_null (s\<lparr>slots := (slots s)(handle \<mapsto> NULL)\<rparr>) handle)"
  using assms
  by (simp add: destroy_local_def jobject_ref_def store_def resolve_def resolve_non_null_def
      resolve_impl_def load_def)

theorem destroy_local_twice_then_resolve_witness:
  "destroy_local \<lparr>current_thread_in_native = False, slots = [8 \<mapsto> 42]\<rparr> 8
     = Inr \<lparr>current_thread_in_native = False, slots = [8 \<mapsto> NULL]\<rparr> \<and>
   destroy_local \<lparr>current_thread_in_native = False, slots = [8 \<mapsto> NULL]\<rparr> 8
     = Inr \<lparr>current_thread_in_native = False, slots = [8 \<mapsto> NULL]\<rparr> \<and>
   contract_violation (resolve \<lparr>current_thread_in_native = False, slots = [8 \<mapsto> NULL]\<rparr> 8)"
proof -
  have a: "(8 :: 64 word) \<noteq> NULL" "\<not> is_jweak 8"
    by (simp_all add: is_jweak_odd)
  show ?thesis
    using destroy_local_twice_then_resolve [OF a, of "\<lparr>current_thread_in_native = False, slots = [8 \<mapsto> 42]\<rparr>" 42]
    by simp
qed

text \<open>
  The claim as stated fails in its first half: destroying a local handle twice is not
  signalled, both calls return normally.
\<close>

theorem destroy_local_twice_counterexample:
  "8 \<noteq> NULL \<and> \<not> is_jweak 8 \<and>
   destroy_local \<lparr>current_thread_in_native = False, slots = [8 \<mapsto> 42]\<rparr> 8
     = Inr \<lparr>current_thread_in_native = False, slots = [8 \<mapsto> NULL]\<rparr> \<and>
   destroy_local \<lparr>current_thread_in_native = False, slots = [8 \<mapsto> NULL]\<rparr> 8
     = Inr \<lparr>current_thread_in_native = False, slots = [8 \<mapsto> NULL]\<rparr> \<and>
   \<not> contract_violation (destroy_local \<lparr>current_thread_in_native = False, slots = [8 \<mapsto> NULL]\<rparr> 8)"
  by (simp add: is_jweak_odd destroy_local_def jobject_ref_def store_def)


section \<open>What one call of an iterator does\<close>

lemma flag_again: "flag it g \<Longrightarrow> (flag it)(g := True) = flag it"
  by (rule fun_upd_idem) simp

lemma member_oops_do_invoke:
  "member_oops_do g (\<lambda>cl. invoke (c cl)) cl it =
     it\<lparr>flag := (flag it)(g := True),
        guard_calls := guard_calls it @ [(g, None, cl)],
        calls := calls it @ unless_flag it g (c cl)\<rparr>"
  by (cases "kind it g"; cases "flag it g")
     (simp_all add: member_oops_do_def ZSerialOopsDo_oops_do_def ZParallelOopsDo_oops_do_def
        Atomic_cmpxchg_def invoke_def unless_flag_def flag_again)

lemma member_unlink_or_oops_do_invoke:
  "member_unlink_or_oops_do g (\<lambda>is_alive cl. invoke (c is_alive cl)) is_alive cl it =
     it\<lparr>flag := (flag it)(g := True),
        guard_calls := guard_calls it @ [(g, Some is_alive, cl)],
        calls := calls it @ unless_flag it g (c is_alive cl)\<rparr>"
  by (cases "kind it g"; cases "flag it g")
     (simp_all add: member_unlink_or_oops_do_def ZSerialUnlinkOrOopsDo_unlink_or_oops_do_def
        ZParallelUnlinkOrOopsDo_unlink_or_oops_do_def
        Atomic_cmpxchg_def invoke_def unless_flag_def flag_again)

lemma unless_flag_update [simp]:
  "unless_flag (it\<lparr>flag := f, guard_calls := gc, calls := cs\<rparr>) g c = (if f g then [] else [c])"
  by (simp add: unless_flag_def)

lemmas do_defs =
  ZRootsIterator_do_universe_def [abs_def]
  ZRootsIterator_do_jni_handles_def [abs_def]
  ZRootsIterator_do_jni_weak_handles_def [abs_def]
  ZRootsIterator_do_object_synchronizer_def [abs_def]
  ZRootsIterator_do_management_def [abs_def]
  ZRootsIterator_do_jvmti_export_def [abs_def]
  ZRootsIterator_do_jvmti_weak_export_def [abs_def]
  ZRootsIterator_do_trace_def [abs_def]
  ZRootsIterator_do_system_dictionary_def [abs_def]
  ZRootsIterator_do_class_loader_data_graph_def [abs_def]
  ZRootsIterator_do_threads_def [abs_def]
  ZRootsIterator_do_code_cache_def [abs_def]
  ZRootsIterator_do_string_table_def [abs_def]

lemmas weak_do_defs =
  ZWeakRootsIterator_do_jni_weak_handles_def [abs_def]
  ZWeakRootsIterator_do_jvmti_weak_export_def [abs_def]
  ZWeakRootsIterator_do_trace_def [abs_def]
  ZWeakRootsIterator_do_symbol_table_def [abs_def]
  ZWeakRootsIterator_do_string_table_def [abs_def]

lemma ZRootsIterator_oops_do_guard_calls:
  "guard_calls (ZRootsIterator_oops_do fl cl v it) =
     guard_calls it @ map (\<lambda>g. (g, None, cl))
       ([Universe, JNIHandles, ObjectSynchronizer, Management, JVMTIExport, SystemDictionary,
         ClassLoaderDataGraph, Threads, CodeCache] @
        (if \<not> ZWeakRoots fl then [JNIWeakHandles, JVMTIWeakExport, Trace, StringTable]
         else if v then [JVMTIWeakExport] else []))"
  by (cases "ZWeakRoots fl"; cases v)
     (simp_all add: ZRootsIterator_oops_do_def Let_def do_defs member_oops_do_invoke
        split del: if_split)

lemma ZRootsIterator_oops_do_calls:
  "calls (ZRootsIterator_oops_do fl cl v it) =
     calls it @
     unless_flag it Universe (Universe_oops_do cl) @
     unless_flag it JNIHandles (JNIHandles_oops_do cl) @
     unless_flag it ObjectSynchronizer (ObjectSynchronizer_oops_do cl) @
     unless_flag it Management (Management_oops_do cl) @
     unless_flag it JVMTIExport (JvmtiExport_oops_do cl) @
     unless_flag it SystemDictionary (SystemDictionary_oops_do cl) @
     unless_flag it ClassLoaderDataGraph (ClassLoaderDataGraph_cld_do_CLDToOopClosure cl) @
     unless_flag it Threads (Threads_possibly_parallel_oops_do True cl) @
     unless_flag it CodeCache (ZNMethodTable_oops_do cl) @
     (if \<not> ZWeakRoots fl then
        unless_flag it JNIWeakHandles (JNIHandles_weak_oops_do cl) @
        unless_flag it JVMTIWeakExport (JvmtiExport_weak_oops_do AlwaysTrueClosure cl) @
        unless_flag it Trace (TRACE_WEAK_OOPS_DO AlwaysTrueClosure cl) @
        unless_flag it StringTable (StringTable_possibly_parallel_oops_do cl)
      else if v then unless_flag it JVMTIWeakExport (JvmtiExport_weak_oops_do AlwaysTrueClosure cl)
      else [])"
proof (cases "ZWeakRoots fl")
  case w: True
  show ?thesis
  proof (cases v)
    case True
    have "ZRootsIterator_oops_do fl cl True it =
        member_oops_do JVMTIWeakExport ZRootsIterator_do_jvmti_weak_export cl
          (ZRootsIterator_oops_do fl cl False it)"
      using w by (simp add: ZRootsIterator_oops_do_def Let_def)
    then show ?thesis using w True
      apply (simp add: do_defs Let_def member_oops_do_invoke split del: if_split)
      apply (simp add: ZRootsIterator_oops_do_def Let_def do_defs member_oops_do_invoke
          split del: if_split)
      apply (simp add: unless_flag_def split del: if_split)
      done
  next
    case False
    then show ?thesis using w
      apply (simp add: ZRootsIterator_oops_do_def Let_def do_defs member_oops_do_invoke
          split del: if_split)
      apply (simp add: unless_flag_def split del: if_split)
      done
  qed
next
  case False
  then show ?thesis
    apply (simp add: ZRootsIterator_oops_do_def Let_def do_defs member_oops_do_invoke
        split del: if_split)
    apply (simp add: unless_flag_def split del: if_split)
    done
qed

lemma ZWeakRootsIterator_unlink_or_oops_do_guard_calls:
  "guard_calls (ZWeakRootsIterator_unlink_or_oops_do fl is_alive cl it) =
     guard_calls it @ map (\<lambda>g. (g, Some is_alive, cl))
       ([SymbolTable] @
        (if ZWeakRoots fl then
           (if \<not> ZConcurrentJNIWeakGlobalHandles fl then [JNIWeakHandles] else []) @
           [JVMTIWeakExport, Trace, StringTable]
         else []))"
  by (cases "ZWeakRoots fl"; cases "ZConcurrentJNIWeakGlobalHandles fl")
     (simp_all add: ZWeakRootsIterator_unlink_or_oops_do_def Let_def weak_do_defs
        member_unlink_or_oops_do_invoke split del: if_split)

lemma ZWeakRootsIterator_unlink_or_oops_do_calls:
  "calls (ZWeakRootsIterator_unlink_or_oops_do fl is_alive cl it) =
     calls it @
     unless_flag it SymbolTable SymbolTable_possibly_parallel_unlink @
     (if ZWeakRoots fl then
        (if \<not> ZConcurrentJNIWeakGlobalHandles fl
         then unless_flag it JNIWeakHandles (JNIHandles_weak_oops_do_is_alive is_alive cl)
         else []) @
        unless_flag it JVMTIWeakExport (JvmtiExport_weak_oops_do is_alive cl) @
        unless_flag it Trace (TRACE_WEAK_OOPS_DO is_alive cl) @
        unless_flag it StringTable (StringTable_possibly_parallel_unlink_or_oops_do is_alive cl)
      else [])"
  by (cases "ZWeakRoots fl"; cases "ZConcurrentJNIWeakGlobalHandles fl")
     (simp_all add: ZWeakRootsIterator_unlink_or_oops_do_def Let_def weak_do_defs
        member_unlink_or_oops_do_invoke unless_flag_def split del: if_split)


section \<open>The serial guard under concurrent calls\<close>

lemma length_running_set_pc [simp]: "length (running (set_pc i p s)) = length (running s)"
  by (simp add: set_pc_def)

lemma length_running_step [simp]: "length (running (ZSerial_step i s)) = length (running s)"
  by (simp add: ZSerial_step_def Atomic_cmpxchg_def split: pc.splits)

lemma pc_set_pc: "j < length (running s) \<Longrightarrow>
   fst (running (set_pc i p s) ! j) = (if j = i then p else fst (running s ! j))"
  by (simp add: set_pc_def nth_list_update)

lemma arg_set_pc: "j < length (running s) \<Longrightarrow> snd (running (set_pc i p s) ! j) = snd (running s ! j)"
  by (cases "j = i") (simp_all add: set_pc_def)

lemma claimed_set_pc [simp]: "claimed (set_pc i p s) = claimed s"
  by (simp add: set_pc_def)

lemma executed_set_pc [simp]: "executed (set_pc i p s) = executed s"
  by (simp add: set_pc_def)

lemma claimed_again: "claimed s \<Longrightarrow> s\<lparr>claimed := True\<rparr> = s"
  by (cases s) simp

lemma winner_others:
  assumes "winner s w" "i < length (running s)" "fst (running s ! i) \<noteq> AtCall"
    "fst (running s ! i) \<noteq> Returned" "p \<noteq> AtCall"
  shows "winner (set_pc i p s) w"
proof -
  from assms have wi: "w \<noteq> i" and w: "w < length (running s)"
    by (auto simp add: winner_def split: if_splits)
  show ?thesis
    using assms wi w by (auto simp add: winner_def pc_set_pc arg_set_pc)
qed

lemma winner_new:
  assumes "\<forall>j < length (running s). fst (running s ! j) = AtTest \<or> fst (running s ! j) = AtCmpxchg"
    "i < length (running s)" "executed s = []"
  shows "winner (set_pc i AtCall (s\<lparr>claimed := True\<rparr>)) i"
  using assms by (auto simp add: winner_def pc_set_pc arg_set_pc)

lemma winner_runs:
  assumes "winner s w" "i < length (running s)" "fst (running s ! i) = AtCall"
  shows "winner (set_pc i Returned (s\<lparr>executed := executed s @ [(i, snd (running s ! i))]\<rparr>)) i"
proof -
  from assms have wi: "w = i" by (auto simp add: winner_def)
  show ?thesis
    using assms wi by (auto simp add: winner_def pc_set_pc arg_set_pc)
qed

lemma serial_inv_step: 
  assumes "serial_inv s" shows "serial_inv (ZSerial_step i s)"
proof (cases "i < length (running s)")
  case False
  then show ?thesis using assms by (simp add: ZSerial_step_def)
next
  case i: True
  show ?thesis
  proof (cases "fst (running s ! i)")
    case AtTest
    show ?thesis
    proof (cases "claimed s")
      case True
      then obtain w where "winner s w" using assms by (auto simp add: serial_inv_def)
      then have "winner (set_pc i Returned s) w" using i AtTest by (intro winner_others) simp_all
      then show ?thesis using True AtTest i by (auto simp add: ZSerial_step_def serial_inv_def)
    next
      case False
      then show ?thesis using assms AtTest i
        by (auto simp add: ZSerial_step_def serial_inv_def pc_set_pc)
    qed
  next
    case AtCmpxchg
    show ?thesis
    proof (cases "claimed s")
      case True
      then obtain w where "winner s w" using assms by (auto simp add: serial_inv_def)
      then have "winner (set_pc i Returned s) w" using i AtCmpxchg by (intro winner_others) simp_all
      moreover have "ZSerial_step i s = set_pc i Returned s"
        using True AtCmpxchg i by (simp add: ZSerial_step_def Atomic_cmpxchg_def claimed_again)
      ultimately show ?thesis using True
        by (auto simp add: serial_inv_def)
    next
      case False
      then have "winner (set_pc i AtCall (s\<lparr>claimed := True\<rparr>)) i"
        using assms i by (intro winner_new) (auto simp add: serial_inv_def)
      then show ?thesis using False AtCmpxchg i
        by (auto simp add: ZSerial_step_def serial_inv_def Atomic_cmpxchg_def)
    qed
  next
    case AtCall
    then have c: "claimed s" using assms i by (cases "claimed s") (auto simp add: serial_inv_def)
    then obtain w where "winner s w" using assms by (auto simp add: serial_inv_def)
    then have "winner (set_pc i Returned (s\<lparr>executed := executed s @ [(i, snd (running s ! i))]\<rparr>)) i"
      using i AtCall by (rule winner_runs)
    then show ?thesis using c AtCall i
      by (auto simp add: ZSerial_step_def serial_inv_def)
  next
    case Returned
    then show ?thesis using assms i
      by (simp add: ZSerial_step_def)
  qed
qed

lemma serial_inv_start: "serial_inv (ZSerial_start args)"
  by (simp add: serial_inv_def ZSerial_start_def)

lemma serial_inv_fold: "serial_inv s \<Longrightarrow> serial_inv (fold ZSerial_step schedule s)"
  by (induction schedule arbitrary: s) (simp_all add: serial_inv_step)

lemma serial_inv_run: "serial_inv (ZSerial_run args schedule)"
  by (simp add: ZSerial_run_def serial_inv_fold serial_inv_start)

lemma args_step: "map snd (running (ZSerial_step i s)) = map snd (running s)"
  by (auto simp add: ZSerial_step_def Atomic_cmpxchg_def set_pc_def map_update list_update_same_conv split: pc.splits)

lemma args_fold: "map snd (running (fold ZSerial_step schedule s)) = map snd (running s)"
  by (induction schedule arbitrary: s) (simp_all add: args_step)

lemma args_run: "map snd (running (ZSerial_run args schedule)) = args"
  by (simp add: ZSerial_run_def args_fold ZSerial_start_def comp_def)

lemma length_running_run: "length (running (ZSerial_run args schedule)) = length args"
  using args_run [of args schedule, THEN arg_cong, of length] by simp

lemma arg_run: "i < length args \<Longrightarrow> snd (running (ZSerial_run args schedule) ! i) = args ! i"
  using args_run [of args schedule] length_running_run [of args schedule]
  by (metis nth_map)

lemma rank_step:
  "j < length (running s) \<Longrightarrow>
   min 3 (rank (fst (running s ! j)) + (if i = j then 1 else 0))
     \<le> rank (fst (running (ZSerial_step i s) ! j))"
  by (auto simp add: ZSerial_step_def Atomic_cmpxchg_def pc_set_pc split: pc.splits)

lemma rank_fold:
  "j < length (running s) \<Longrightarrow>
   min 3 (rank (fst (running s ! j)) + count_list schedule j)
     \<le> rank (fst (running (fold ZSerial_step schedule s) ! j))"
proof (induction schedule arbitrary: s)
  case Nil
  then show ?case by simp
next
  case (Cons i schedule)
  have "min 3 (rank (fst (running s ! j)) + count_list (i # schedule) j)
        \<le> min 3 (rank (fst (running (ZSerial_step i s) ! j)) + count_list schedule j)"
    using rank_step [OF Cons.prems, of i] by auto
  also have "\<dots> \<le> rank (fst (running (fold ZSerial_step schedule (ZSerial_step i s)) ! j))"
    using Cons.prems by (intro Cons.IH) simp
  finally show ?case by simp
qed

lemma rank_Returned: "3 \<le> rank p \<longleftrightarrow> p = Returned"
  by (cases p) simp_all

lemma fair_schedule_returns:
  assumes "\<forall>i < length args. 3 \<le> count_list schedule i"
  shows "all_returned (ZSerial_run args schedule)"
proof -
  have "fst (running (ZSerial_run args schedule) ! j) = Returned" if j: "j < length args" for j
  proof -
    have "min 3 (rank (fst (running (ZSerial_start args) ! j)) + count_list schedule j)
       \<le> rank (fst (running (ZSerial_run args schedule) ! j))"
      unfolding ZSerial_run_def using j by (intro rank_fold) (simp add: ZSerial_start_def)
    moreover have "3 \<le> count_list schedule j" using assms j by simp
    ultimately have "3 \<le> rank (fst (running (ZSerial_run args schedule) ! j))" by simp
    then show ?thesis by (simp add: rank_Returned)
  qed
  then show ?thesis
    by (simp add: all_returned_def list_all_length length_running_run)
qed

lemma executed_at_most_once: "serial_inv s \<Longrightarrow> length (executed s) \<le> 1"
  by (auto simp add: serial_inv_def winner_def split: if_splits)

lemma executed_once_when_returned:
  assumes "serial_inv s" "all_returned s" "running s \<noteq> []"
  shows "\<exists>w < length (running s). executed s = [(w, snd (running s ! w))]"
proof -
  from assms(2) have r: "\<forall>j < length (running s). fst (running s ! j) = Returned"
    by (simp add: all_returned_def list_all_length)
  with assms(3) have "fst (running s ! 0) = Returned" by simp
  with assms(1,3) have "claimed s" by (auto simp add: serial_inv_def split: if_splits)
  with assms(1) obtain w where "winner s w" by (auto simp add: serial_inv_def)
  with r show ?thesis by (auto simp add: winner_def)
qed


text \<open>
  A call that runs alone, from its test to its return, does in the step model what the
  templates of the serial guard do when run to their end: the flag is set afterwards,
  and \<open>F\<close> has run exactly if the flag was clear before.
\<close>

lemma ZSerialOopsDo_oops_do_eq:
  "ZSerialOopsDo_oops_do g F cl it =
     (if flag it g then it else F cl (it\<lparr>flag := (flag it)(g := True)\<rparr>))"
  by (simp add: ZSerialOopsDo_oops_do_def Atomic_cmpxchg_def Let_def)

lemma ZSerialUnlinkOrOopsDo_unlink_or_oops_do_eq:
  "ZSerialUnlinkOrOopsDo_unlink_or_oops_do g F is_alive cl it =
     (if flag it g then it else F is_alive cl (it\<lparr>flag := (flag it)(g := True)\<rparr>))"
  by (simp add: ZSerialUnlinkOrOopsDo_unlink_or_oops_do_def Atomic_cmpxchg_def Let_def)

lemma ZSerial_step_alone:
  assumes "i < length (running s)" and "fst (running s ! i) = AtTest"
  shows "claimed (ZSerial_step i (ZSerial_step i (ZSerial_step i s))) \<longleftrightarrow> True"
    and "executed (ZSerial_step i (ZSerial_step i (ZSerial_step i s))) =
           executed s @ (if claimed s then [] else [(i, snd (running s ! i))])"
    and "fst (running (ZSerial_step i (ZSerial_step i (ZSerial_step i s))) ! i) = Returned"
proof -
  show "claimed (ZSerial_step i (ZSerial_step i (ZSerial_step i s))) \<longleftrightarrow> True"
    using assms
    by (cases "claimed s")
       (simp_all add: ZSerial_step_def pc_set_pc arg_set_pc Atomic_cmpxchg_def)
  show "executed (ZSerial_step i (ZSerial_step i (ZSerial_step i s))) =
           executed s @ (if claimed s then [] else [(i, snd (running s ! i))])"
    using assms
    by (cases "claimed s")
       (simp_all add: ZSerial_step_def pc_set_pc arg_set_pc Atomic_cmpxchg_def)
  show "fst (running (ZSerial_step i (ZSerial_step i (ZSerial_step i s))) ! i) = Returned"
    using assms
    by (cases "claimed s")
       (simp_all add: ZSerial_step_def pc_set_pc arg_set_pc Atomic_cmpxchg_def)
qed


text \<open>
  Claim C1. For every number \<open>T \<ge> 1\<close> of concurrent calls of the entry point of one
  serial guard (the length of \<open>args\<close>) and every schedule of their steps: \<open>F\<close> is
  never executed more than once; once all calls have returned it has been executed
  exactly once, by one call \<open>w\<close> with the arguments of that call, and every other call
  has returned without executing it; and all calls do return, on every schedule that
  lets each call take its three steps.
\<close>

theorem serial_guard_executes_once:
  assumes "1 \<le> length args"
  shows "length (executed (ZSerial_run args schedule)) \<le> 1 \<and>
         (all_returned (ZSerial_run args schedule) \<longrightarrow>
            (\<exists>w < length args. executed (ZSerial_run args schedule) = [(w, args ! w)])) \<and>
         ((\<forall>i < length args. 3 \<le> count_list schedule i) \<longrightarrow>
            all_returned (ZSerial_run args schedule))"
proof (intro conjI impI)
  show "length (executed (ZSerial_run args schedule)) \<le> 1"
    by (rule executed_at_most_once [OF serial_inv_run])
next
  assume r: "all_returned (ZSerial_run args schedule)"
  have "running (ZSerial_run args schedule) \<noteq> []"
    using assms length_running_run [of args schedule] by auto
  from executed_once_when_returned [OF serial_inv_run r this]
  obtain w where w: "w < length (running (ZSerial_run args schedule))"
    and e: "executed (ZSerial_run args schedule)
              = [(w, snd (running (ZSerial_run args schedule) ! w))]"
    by blast
  from w have w': "w < length args"
    by (simp add: length_running_run)
  with e have "executed (ZSerial_run args schedule) = [(w, args ! w)]"
    by (simp add: arg_run)
  with w' show "\<exists>w < length args. executed (ZSerial_run args schedule) = [(w, args ! w)]"
    by blast
next
  assume "\<forall>i < length args. 3 \<le> count_list schedule i"
  then show "all_returned (ZSerial_run args schedule)"
    by (rule fair_schedule_returns)
qed

theorem serial_guard_executes_once_witness:
  "\<exists>w < length [10, 20, 30 :: nat].
     executed (ZSerial_run [10, 20, 30 :: nat] [0, 1, 2, 1, 0, 2, 0, 1, 2])
       = [(w, [10, 20, 30 :: nat] ! w)]"
proof -
  have a: "1 \<le> length [10, 20, 30 :: nat]"
    by simp
  have b: "\<forall>i < length [10, 20, 30 :: nat]. 3 \<le> count_list [0, 1, 2, 1, 0, 2, 0, 1, 2] i"
    by (simp add: less_Suc_eq)
  note once = serial_guard_executes_once [OF a, of "[0, 1, 2, 1, 0, 2, 0, 1, 2]"]
  from once have "(\<forall>i < length [10, 20, 30 :: nat]. 3 \<le> count_list [0, 1, 2, 1, 0, 2, 0, 1, 2] i)
      \<longrightarrow> all_returned (ZSerial_run [10, 20, 30 :: nat] [0, 1, 2, 1, 0, 2, 0, 1, 2])"
    by (rule conjunct2 [THEN conjunct2])
  from this b have r: "all_returned (ZSerial_run [10, 20, 30 :: nat] [0, 1, 2, 1, 0, 2, 0, 1, 2])"
    by (rule mp)
  from once have "all_returned (ZSerial_run [10, 20, 30 :: nat] [0, 1, 2, 1, 0, 2, 0, 1, 2])
      \<longrightarrow> (\<exists>w < length [10, 20, 30 :: nat].
            executed (ZSerial_run [10, 20, 30 :: nat] [0, 1, 2, 1, 0, 2, 0, 1, 2])
              = [(w, [10, 20, 30 :: nat] ! w)])"
    by (rule conjunct2 [THEN conjunct1])
  from this r show ?thesis
    by (rule mp)
qed


section \<open>The parallel guard\<close>

lemma ZParallelOopsDo_oops_do_eq:
  "ZParallelOopsDo_oops_do g F cl it =
     (if flag it g then it else (F cl it)\<lparr>flag := (flag (F cl it))(g := True)\<rparr>)"
  by (simp add: ZParallelOopsDo_oops_do_def Let_def flag_again)

lemma ZParallelUnlinkOrOopsDo_unlink_or_oops_do_eq:
  "ZParallelUnlinkOrOopsDo_unlink_or_oops_do g F is_alive cl it =
     (if flag it g then it
      else (F is_alive cl it)\<lparr>flag := (flag (F is_alive cl it))(g := True)\<rparr>)"
  by (simp add: ZParallelUnlinkOrOopsDo_unlink_or_oops_do_def Let_def flag_again)

text \<open>
  Claim C2, as amended. A call of the entry point of a parallel guard executes the
  traversal function exactly when the \<open>_completed\<close> flag is clear as the call
  tests it; the flag is set when the function has returned, so it is set after every
  call, and a further call on the same guard, whatever its arguments, changes
  nothing: it is skipped. This holds for \<open>ZParallelOopsDo\<close> and for
  \<open>ZParallelUnlinkOrOopsDo\<close>.
\<close>

theorem parallel_guard_skips_when_completed:
  "ZParallelOopsDo_oops_do g F cl it =
     (if flag it g then it else (F cl it)\<lparr>flag := (flag (F cl it))(g := True)\<rparr>) \<and>
   ZParallelUnlinkOrOopsDo_unlink_or_oops_do g F' is_alive cl it =
     (if flag it g then it
      else (F' is_alive cl it)\<lparr>flag := (flag (F' is_alive cl it))(g := True)\<rparr>) \<and>
   flag (ZParallelOopsDo_oops_do g F cl it) g \<and>
   flag (ZParallelUnlinkOrOopsDo_unlink_or_oops_do g F' is_alive cl it) g \<and>
   ZParallelOopsDo_oops_do g F cl' (ZParallelOopsDo_oops_do g F cl it)
     = ZParallelOopsDo_oops_do g F cl it \<and>
   ZParallelUnlinkOrOopsDo_unlink_or_oops_do g F' is_alive' cl'
       (ZParallelUnlinkOrOopsDo_unlink_or_oops_do g F' is_alive cl it)
     = ZParallelUnlinkOrOopsDo_unlink_or_oops_do g F' is_alive cl it"
proof -
  have a: "flag (ZParallelOopsDo_oops_do g F cl it) g"
    by (simp add: ZParallelOopsDo_oops_do_eq)
  have b: "flag (ZParallelUnlinkOrOopsDo_unlink_or_oops_do g F' is_alive cl it) g"
    by (simp add: ZParallelUnlinkOrOopsDo_unlink_or_oops_do_eq)
  have c: "ZParallelOopsDo_oops_do g F cl' (ZParallelOopsDo_oops_do g F cl it)
      = ZParallelOopsDo_oops_do g F cl it"
    using a by (simp add: ZParallelOopsDo_oops_do_eq [of g F cl'])
  have d: "ZParallelUnlinkOrOopsDo_unlink_or_oops_do g F' is_alive' cl'
       (ZParallelUnlinkOrOopsDo_unlink_or_oops_do g F' is_alive cl it)
     = ZParallelUnlinkOrOopsDo_unlink_or_oops_do g F' is_alive cl it"
    using b by (simp add: ZParallelUnlinkOrOopsDo_unlink_or_oops_do_eq [of g F' is_alive' cl'])
  show ?thesis
    using a b c d ZParallelOopsDo_oops_do_eq [of g F cl it]
      ZParallelUnlinkOrOopsDo_unlink_or_oops_do_eq [of g F' is_alive cl it]
    by (intro conjI)
qed

theorem parallel_guard_skips_when_completed_witness:
  "ZParallelOopsDo_oops_do Threads ZRootsIterator_do_threads (2 :: nat)
       (ZParallelOopsDo_oops_do Threads ZRootsIterator_do_threads 1 (new_iterator (\<lambda>g. Parallel)))
     = ZParallelOopsDo_oops_do Threads ZRootsIterator_do_threads 1 (new_iterator (\<lambda>g. Parallel))"
proof -
  note t = parallel_guard_skips_when_completed
    [where g = Threads and F = ZRootsIterator_do_threads and cl = "1 :: nat" and cl' = 2
       and it = "new_iterator (\<lambda>g. Parallel)" and F' = ZWeakRootsIterator_do_symbol_table
       and is_alive = "\<lambda>obj. True" and is_alive' = "\<lambda>obj. True"]
  from t show ?thesis
    by (rule conjunct2 [THEN conjunct2, THEN conjunct2, THEN conjunct2, THEN conjunct1])
qed

text \<open>
  The claim as stated, that every call executes the traversal function, fails at the
  second of two calls on one guard: after both calls the collaborator has been
  called once, with the visitor of the first call.
\<close>

theorem parallel_guard_second_call_counterexample:
  "calls (ZParallelOopsDo_oops_do Threads ZRootsIterator_do_threads (2 :: nat)
            (ZParallelOopsDo_oops_do Threads ZRootsIterator_do_threads 1
               (new_iterator (\<lambda>g. Parallel))))
     = [Threads_possibly_parallel_oops_do True 1] \<and>
   calls (ZParallelUnlinkOrOopsDo_unlink_or_oops_do SymbolTable ZWeakRootsIterator_do_symbol_table
            (\<lambda>obj. True) (2 :: nat)
            (ZParallelUnlinkOrOopsDo_unlink_or_oops_do SymbolTable ZWeakRootsIterator_do_symbol_table
               (\<lambda>obj. True) 1 (new_iterator (\<lambda>g. Parallel))))
     = [SymbolTable_possibly_parallel_unlink]"
  by (simp add: ZParallelOopsDo_oops_do_def ZParallelUnlinkOrOopsDo_unlink_or_oops_do_def
      new_iterator_def ZRootsIterator_do_threads_def ZWeakRootsIterator_do_symbol_table_def
      invoke_def Let_def)


section \<open>The root groups an iterator visits\<close>

text \<open>
  Claim C6, as amended. Every call of \<open>ZRootsIterator::oops_do\<close> calls the guards
  of universe, JNI handles, object synchronizer, management, JVMTI export, system
  dictionary, class loader data graph, threads and code cache, in this order; then,
  when \<open>ZWeakRoots\<close> is off, those of weak JNI handles, weak JVMTI export, trace and
  string table; and when \<open>ZWeakRoots\<close> is on, that of weak JVMTI export alone, if
  \<open>visit_jvmti_weak_export\<close> is true, and no weak guard otherwise.
\<close>

theorem ZRootsIterator_oops_do_dispatch:
  "guard_calls (ZRootsIterator_oops_do fl cl visit_jvmti_weak_export it) =
     guard_calls it @ map (\<lambda>g. (g, None, cl))
       ([Universe, JNIHandles, ObjectSynchronizer, Management, JVMTIExport, SystemDictionary,
         ClassLoaderDataGraph, Threads, CodeCache] @
        (if \<not> ZWeakRoots fl then [JNIWeakHandles, JVMTIWeakExport, Trace, StringTable]
         else if visit_jvmti_weak_export then [JVMTIWeakExport] else []))"
  by (rule ZRootsIterator_oops_do_guard_calls)

theorem ZRootsIterator_oops_do_dispatch_witness:
  "guard_calls (ZRootsIterator_oops_do \<lparr>ZWeakRoots = False, ZConcurrentJNIWeakGlobalHandles = False\<rparr>
                  (7 :: nat) False (new_iterator (\<lambda>g. Serial))) =
     [(Universe, None, 7), (JNIHandles, None, 7), (ObjectSynchronizer, None, 7),
      (Management, None, 7), (JVMTIExport, None, 7), (SystemDictionary, None, 7),
      (ClassLoaderDataGraph, None, 7), (Threads, None, 7), (CodeCache, None, 7),
      (JNIWeakHandles, None, 7), (JVMTIWeakExport, None, 7), (Trace, None, 7),
      (StringTable, None, 7)]"
  using ZRootsIterator_oops_do_dispatch
    [where fl = "\<lparr>ZWeakRoots = False, ZConcurrentJNIWeakGlobalHandles = False\<rparr>"
       and cl = "7 :: nat" and visit_jvmti_weak_export = False
       and it = "new_iterator (\<lambda>g. Serial)"]
  by (simp add: new_iterator_def)

text \<open>
  The claim as stated ties all four weak groups to \<open>ZWeakRoots\<close> being off. With
  \<open>ZWeakRoots\<close> on and \<open>visit_jvmti_weak_export\<close> true the guard of weak JVMTI
  export is called all the same.
\<close>

theorem ZRootsIterator_oops_do_weak_export_counterexample:
  "ZWeakRoots \<lparr>ZWeakRoots = True, ZConcurrentJNIWeakGlobalHandles = False\<rparr> \<and>
   guard_calls (ZRootsIterator_oops_do \<lparr>ZWeakRoots = True, ZConcurrentJNIWeakGlobalHandles = False\<rparr>
                  (7 :: nat) True (new_iterator (\<lambda>g. Serial))) =
     [(Universe, None, 7), (JNIHandles, None, 7), (ObjectSynchronizer, None, 7),
      (Management, None, 7), (JVMTIExport, None, 7), (SystemDictionary, None, 7),
      (ClassLoaderDataGraph, None, 7), (Threads, None, 7), (CodeCache, None, 7),
      (JVMTIWeakExport, None, 7)]"
  by (simp add: ZRootsIterator_oops_do_guard_calls new_iterator_def)

text \<open>
  Claim C10. With \<open>ZWeakRoots\<close> on, a call of \<open>ZRootsIterator::oops_do\<close> calls
  the nine strong guards and, exactly when \<open>visit_jvmti_weak_export\<close> is true, the
  guard of weak JVMTI export, whose traversal (run unless that guard was claimed
  before) is \<open>JvmtiExport::weak_oops_do\<close> with \<open>AlwaysTrueClosure\<close>, a predicate
  true of every object. No guard and no traversal of weak JNI handles, trace or
  string table occurs.
\<close>

theorem ZRootsIterator_oops_do_separate_weak_phase:
  assumes "ZWeakRoots fl"
  shows "guard_calls (ZRootsIterator_oops_do fl cl visit_jvmti_weak_export it) =
           guard_calls it @ map (\<lambda>g. (g, None, cl))
             ([Universe, JNIHandles, ObjectSynchronizer, Management, JVMTIExport,
               SystemDictionary, ClassLoaderDataGraph, Threads, CodeCache] @
              (if visit_jvmti_weak_export then [JVMTIWeakExport] else [])) \<and>
         calls (ZRootsIterator_oops_do fl cl visit_jvmti_weak_export it) =
           calls it @
           unless_flag it Universe (Universe_oops_do cl) @
           unless_flag it JNIHandles (JNIHandles_oops_do cl) @
           unless_flag it ObjectSynchronizer (ObjectSynchronizer_oops_do cl) @
           unless_flag it Management (Management_oops_do cl) @
           unless_flag it JVMTIExport (JvmtiExport_oops_do cl) @
           unless_flag it SystemDictionary (SystemDictionary_oops_do cl) @
           unless_flag it ClassLoaderDataGraph (ClassLoaderDataGraph_cld_do_CLDToOopClosure cl) @
           unless_flag it Threads (Threads_possibly_parallel_oops_do True cl) @
           unless_flag it CodeCache (ZNMethodTable_oops_do cl) @
           (if visit_jvmti_weak_export
            then unless_flag it JVMTIWeakExport (JvmtiExport_weak_oops_do AlwaysTrueClosure cl)
            else []) \<and>
         (\<forall>obj. AlwaysTrueClosure obj)"
proof (intro conjI)
  show "guard_calls (ZRootsIterator_oops_do fl cl visit_jvmti_weak_export it) =
           guard_calls it @ map (\<lambda>g. (g, None, cl))
             ([Universe, JNIHandles, ObjectSynchronizer, Management, JVMTIExport,
               SystemDictionary, ClassLoaderDataGraph, Threads, CodeCache] @
              (if visit_jvmti_weak_export then [JVMTIWeakExport] else []))"
    using assms by (simp add: ZRootsIterator_oops_do_guard_calls)
  show "calls (ZRootsIterator_oops_do fl cl visit_jvmti_weak_export it) =
           calls it @
           unless_flag it Universe (Universe_oops_do cl) @
           unless_flag it JNIHandles (JNIHandles_oops_do cl) @
           unless_flag it ObjectSynchronizer (ObjectSynchronizer_oops_do cl) @
           unless_flag it Management (Management_oops_do cl) @
           unless_flag it JVMTIExport (JvmtiExport_oops_do cl) @
           unless_flag it SystemDictionary (SystemDictionary_oops_do cl) @
           unless_flag it ClassLoaderDataGraph (ClassLoaderDataGraph_cld_do_CLDToOopClosure cl) @
           unless_flag it Threads (Threads_possibly_parallel_oops_do True cl) @
           unless_flag it CodeCache (ZNMethodTable_oops_do cl) @
           (if visit_jvmti_weak_export
            then unless_flag it JVMTIWeakExport (JvmtiExport_weak_oops_do AlwaysTrueClosure cl)
            else [])"
    using assms by (simp add: ZRootsIterator_oops_do_calls split del: if_split)
  show "\<forall>obj. AlwaysTrueClosure obj"
    by (simp add: AlwaysTrueClosure_def)
qed

theorem ZRootsIterator_oops_do_separate_weak_phase_witness:
  "calls (ZRootsIterator_oops_do \<lparr>ZWeakRoots = True, ZConcurrentJNIWeakGlobalHandles = False\<rparr>
            (7 :: nat) True (new_iterator (\<lambda>g. Serial))) =
     [Universe_oops_do 7, JNIHandles_oops_do 7, ObjectSynchronizer_oops_do 7,
      Management_oops_do 7, JvmtiExport_oops_do 7, SystemDictionary_oops_do 7,
      ClassLoaderDataGraph_cld_do_CLDToOopClosure 7, Threads_possibly_parallel_oops_do True 7,
      ZNMethodTable_oops_do 7, JvmtiExport_weak_oops_do AlwaysTrueClosure 7] \<and>
   calls (ZRootsIterator_oops_do \<lparr>ZWeakRoots = True, ZConcurrentJNIWeakGlobalHandles = False\<rparr>
            (7 :: nat) False (new_iterator (\<lambda>g. Serial))) =
     [Universe_oops_do 7, JNIHandles_oops_do 7, ObjectSynchronizer_oops_do 7,
      Management_oops_do 7, JvmtiExport_oops_do 7, SystemDictionary_oops_do 7,
      ClassLoaderDataGraph_cld_do_CLDToOopClosure 7, Threads_possibly_parallel_oops_do True 7,
      ZNMethodTable_oops_do 7]"
proof -
  have a: "ZWeakRoots \<lparr>ZWeakRoots = True, ZConcurrentJNIWeakGlobalHandles = False\<rparr>"
    by simp
  show ?thesis
    using ZRootsIterator_oops_do_separate_weak_phase
        [OF a, where cl = "7 :: nat" and visit_jvmti_weak_export = True
           and it = "new_iterator (\<lambda>g. Serial)"]
      ZRootsIterator_oops_do_separate_weak_phase
        [OF a, where cl = "7 :: nat" and visit_jvmti_weak_export = False
           and it = "new_iterator (\<lambda>g. Serial)"]
    by (simp add: new_iterator_def unless_flag_def)
qed

text \<open>
  Claim C7, as amended. Every call of \<open>ZWeakRootsIterator::unlink_or_oops_do\<close>
  calls the guard of the symbol table, with the liveness predicate and the visitor it
  was given; the traversal behind that guard, \<open>SymbolTable::possibly_parallel_unlink\<close>,
  takes neither of them. Only when \<open>ZWeakRoots\<close> is on, the guards of weak JNI
  handles (unless \<open>ZConcurrentJNIWeakGlobalHandles\<close> is on), weak JVMTI export, trace
  and string table are called as well, and their traversals are given the supplied
  liveness predicate and visitor. Each traversal runs unless the flag of its guard was
  set before the call.
\<close>

theorem ZWeakRootsIterator_unlink_or_oops_do_visits:
  "guard_calls (ZWeakRootsIterator_unlink_or_oops_do fl is_alive cl it) =
     guard_calls it @ map (\<lambda>g. (g, Some is_alive, cl))
       ([SymbolTable] @
        (if ZWeakRoots fl then
           (if \<not> ZConcurrentJNIWeakGlobalHandles fl then [JNIWeakHandles] else []) @
           [JVMTIWeakExport, Trace, StringTable]
         else [])) \<and>
   calls (ZWeakRootsIterator_unlink_or_oops_do fl is_alive cl it) =
     calls it @
     unless_flag it SymbolTable SymbolTable_possibly_parallel_unlink @
     (if ZWeakRoots fl then
        (if \<not> ZConcurrentJNIWeakGlobalHandles fl
         then unless_flag it JNIWeakHandles (JNIHandles_weak_oops_do_is_alive is_alive cl)
         else []) @
        unless_flag it JVMTIWeakExport (JvmtiExport_weak_oops_do is_alive cl) @
        unless_flag it Trace (TRACE_WEAK_OOPS_DO is_alive cl) @
        unless_flag it StringTable (StringTable_possibly_parallel_unlink_or_oops_do is_alive cl)
      else []) \<and>
   liveness_argument (SymbolTable_possibly_parallel_unlink :: 'c call) = None"
  using ZWeakRootsIterator_unlink_or_oops_do_guard_calls [of fl is_alive cl it]
    ZWeakRootsIterator_unlink_or_oops_do_calls [of fl is_alive cl it]
  by (intro conjI) simp_all

theorem ZWeakRootsIterator_unlink_or_oops_do_visits_witness:
  "calls (ZWeakRootsIterator_unlink_or_oops_do
            \<lparr>ZWeakRoots = True, ZConcurrentJNIWeakGlobalHandles = False\<rparr>
            (\<lambda>obj. obj = 5) (7 :: nat) (new_iterator (\<lambda>g. Serial))) =
     [SymbolTable_possibly_parallel_unlink,
      JNIHandles_weak_oops_do_is_alive (\<lambda>obj. obj = 5) 7,
      JvmtiExport_weak_oops_do (\<lambda>obj. obj = 5) 7,
      TRACE_WEAK_OOPS_DO (\<lambda>obj. obj = 5) 7,
      StringTable_possibly_parallel_unlink_or_oops_do (\<lambda>obj. obj = 5) 7]"
  using ZWeakRootsIterator_unlink_or_oops_do_visits
    [where fl = "\<lparr>ZWeakRoots = True, ZConcurrentJNIWeakGlobalHandles = False\<rparr>"
       and is_alive = "\<lambda>obj. obj = 5" and cl = "7 :: nat" and it = "new_iterator (\<lambda>g. Serial)"]
  by (simp add: new_iterator_def unless_flag_def)

text \<open>
  The claim as stated has the symbol table visited with the supplied liveness
  predicate. The one collaborator call of a pass with \<open>ZWeakRoots\<close> off carries no
  liveness predicate, and the pass makes the same calls for the predicate that is
  false of every object as for the one that is true of every object.
\<close>

theorem ZWeakRootsIterator_symbol_table_counterexample:
  "calls (ZWeakRootsIterator_unlink_or_oops_do
            \<lparr>ZWeakRoots = False, ZConcurrentJNIWeakGlobalHandles = False\<rparr>
            (\<lambda>obj. False) (7 :: nat) (new_iterator (\<lambda>g. Parallel))) =
     [SymbolTable_possibly_parallel_unlink] \<and>
   liveness_argument (SymbolTable_possibly_parallel_unlink :: nat call) = None \<and>
   calls (ZWeakRootsIterator_unlink_or_oops_do
            \<lparr>ZWeakRoots = False, ZConcurrentJNIWeakGlobalHandles = False\<rparr>
            (\<lambda>obj. True) (7 :: nat) (new_iterator (\<lambda>g. Parallel))) =
     calls (ZWeakRootsIterator_unlink_or_oops_do
            \<lparr>ZWeakRoots = False, ZConcurrentJNIWeakGlobalHandles = False\<rparr>
            (\<lambda>obj. False) (7 :: nat) (new_iterator (\<lambda>g. Parallel)))"
  by (simp add: ZWeakRootsIterator_unlink_or_oops_do_calls new_iterator_def unless_flag_def)

text \<open>
  Claim C8. For every visitor, in every state of the iterator,
  \<open>ZWeakRootsIterator::oops_do\<close> is \<open>unlink_or_oops_do\<close> called with
  \<open>AlwaysTrueClosure\<close> and the same visitor, and so is the visit-only mode of the
  spec; \<open>AlwaysTrueClosure\<close> holds of every object.
\<close>

theorem ZWeakRootsIterator_oops_do_visit_only:
  "ZWeakRootsIterator_oops_do fl cl it = visit_only fl cl it \<and>
   ZWeakRootsIterator_oops_do fl cl it
     = ZWeakRootsIterator_unlink_or_oops_do fl AlwaysTrueClosure cl it \<and>
   (\<forall>obj. AlwaysTrueClosure obj)"
  by (simp add: ZWeakRootsIterator_oops_do_def visit_only_def AlwaysTrueClosure_def)

theorem ZWeakRootsIterator_oops_do_visit_only_witness:
  "calls (ZWeakRootsIterator_oops_do \<lparr>ZWeakRoots = True, ZConcurrentJNIWeakGlobalHandles = True\<rparr>
            (7 :: nat) (new_iterator (\<lambda>g. Serial))) =
     [SymbolTable_possibly_parallel_unlink,
      JvmtiExport_weak_oops_do (\<lambda>obj. True) 7,
      TRACE_WEAK_OOPS_DO (\<lambda>obj. True) 7,
      StringTable_possibly_parallel_unlink_or_oops_do (\<lambda>obj. True) 7]"
  using ZWeakRootsIterator_oops_do_visit_only
    [where fl = "\<lparr>ZWeakRoots = True, ZConcurrentJNIWeakGlobalHandles = True\<rparr>"
       and cl = "7 :: nat" and it = "new_iterator (\<lambda>g. Serial)"]
  by (simp add: visit_only_def ZWeakRootsIterator_unlink_or_oops_do_calls new_iterator_def
      unless_flag_def)


end
